theory Spec2Isabelle
  imports Main "HOL-Library.Word"
begin

unbundle bit_operations_syntax

section \<open>Data model of package edgecontext (validator.go)\<close>

type_synonym uint32 = "32 word"

text \<open>
  \<^verbatim>\<open>type keysType []*rsa.PublicKey\<close>. Of \<^verbatim>\<open>rsa.PublicKey\<close> the two fields of the
  standard library's struct are kept: the modulus and the public exponent.
\<close>

record PublicKey =
  N :: int
  E :: int

type_synonym keysType = "PublicKey list"

definition authenticationPubKeySecretPath :: string where
  "authenticationPubKeySecretPath = ''secret/authentication/public-key''"

definition jwtAlg :: string where
  "jwtAlg = ''RS256''"

subsection \<open>The error flags of the jwt library\<close>

text \<open>
  The bit constants \<^verbatim>\<open>jwt.ValidationError...\<close> belong to the imported library
  \<^verbatim>\<open>gopkg.in/dgrijalva/jwt-go.v3\<close> (its \<^verbatim>\<open>errors.go\<close>), where they are declared as
  \<^verbatim>\<open>uint32 = 1 << iota\<close> in this order: Malformed, Unverifiable, SignatureInvalid,
  Audience, Expired, IssuedAt, Issuer, NotValidYet, Id, ClaimsInvalid.
\<close>

definition ValidationErrorMalformed :: uint32 where
  "ValidationErrorMalformed = 1"

definition ValidationErrorUnverifiable :: uint32 where
  "ValidationErrorUnverifiable = 2"

definition ValidationErrorSignatureInvalid :: uint32 where
  "ValidationErrorSignatureInvalid = 4"

definition ValidationErrorAudience :: uint32 where
  "ValidationErrorAudience = 8"

definition ValidationErrorExpired :: uint32 where
  "ValidationErrorExpired = 16"

definition ValidationErrorIssuedAt :: uint32 where
  "ValidationErrorIssuedAt = 32"

definition ValidationErrorIssuer :: uint32 where
  "ValidationErrorIssuer = 64"

definition ValidationErrorNotValidYet :: uint32 where
  "ValidationErrorNotValidYet = 128"

definition ValidationErrorId :: uint32 where
  "ValidationErrorId = 256"

definition ValidationErrorClaimsInvalid :: uint32 where
  "ValidationErrorClaimsInvalid = 512"

text \<open>
  \<^verbatim>\<open>jwt.ValidationError\<close>: the bit field \<^verbatim>\<open>Errors\<close> and the message \<^verbatim>\<open>text\<close>.
  (The third field of the library's struct, \<^verbatim>\<open>Inner\<close>, only feeds the message and is
  not read by validator.go.)
\<close>

record ValidationError =
  Errors :: uint32
  text_of :: string

text \<open>
  A Go \<^verbatim>\<open>error\<close> is an interface value: what \<^verbatim>\<open>errors.As\<close> inspects is its dynamic
  type. The library's struct has the method \<^verbatim>\<open>Error\<close> on the value receiver, so both
  \<^verbatim>\<open>jwt.ValidationError\<close> and \<^verbatim>\<open>*jwt.ValidationError\<close> are error types, and they are
  different dynamic types. \<open>errorString\<close> is what \<^verbatim>\<open>errors.New\<close> builds;
  \<open>wrapError\<close> is an error with an \<^verbatim>\<open>Unwrap\<close> method (as \<^verbatim>\<open>fmt.Errorf\<close> with
  \<^verbatim>\<open>%w\<close> builds).
\<close>

datatype error =
    errorString string
  | ValidationErrorValue ValidationError
  | ValidationErrorPointer ValidationError
  | wrapError string error

text \<open>
  \<^verbatim>\<open>jwt.NewValidationError(text, flags)\<close> returns a \<^verbatim>\<open>*ValidationError\<close>.
\<close>

definition NewValidationError :: "string \<Rightarrow> uint32 \<Rightarrow> error" where
  "NewValidationError errorText errorFlags =
     ValidationErrorPointer \<lparr>Errors = errorFlags, text_of = errorText\<rparr>"

text \<open>
  The flags of the validation error at the end of an error's \<^verbatim>\<open>Unwrap\<close> chain,
  whichever of the two dynamic types it has; used to state what kind of failure a key
  attempt produced.
\<close>

fun error_flags :: "error \<Rightarrow> uint32 option" where
  "error_flags (ValidationErrorValue ve) = Some (Errors ve)"
| "error_flags (ValidationErrorPointer ve) = Some (Errors ve)"
| "error_flags (errorString s) = None"
| "error_flags (wrapError s e) = error_flags e"

subsection \<open>Tokens and claims\<close>

text \<open>
  Modelled from the spec: the struct \<^verbatim>\<open>AuthenticationToken\<close> is declared in another
  file of the package. The spec lists its content as subject identity, audience, issuer,
  issued-at, expiry, plus service-defined identity fields treated opaquely.
\<close>

record AuthenticationToken =
  Subject :: string
  Audience :: string
  Issuer :: string
  IssuedAt :: int
  ExpiresAt :: int
  identity_fields :: string

text \<open>
  \<^verbatim>\<open>jwt.Token\<close>: the field \<^verbatim>\<open>Claims\<close> is an interface value, either the
  \<^verbatim>\<open>*AuthenticationToken\<close> or a value of another claims type; \<open>Alg\<close> stands for
  \<^verbatim>\<open>token.Method.Alg()\<close>.
\<close>

datatype jwt_Claims =
    AuthenticationTokenClaims AuthenticationToken
  | OtherClaims string

record Token =
  Raw :: string
  Alg :: string
  Claims :: jwt_Claims
  Valid :: bool

subsection \<open>Package state\<close>

text \<open>
  What the package-level \<^verbatim>\<open>logger\<close> is called with: the format string and its
  arguments, not the rendered text.
\<close>

datatype logline =
    FailedToGetSecrets string error
  | FailedToParseKey nat error
  | NoValidKeys

text \<open>
  \<open>keysValue\<close> is the package-level \<^verbatim>\<open>atomic.Value\<close>: \<open>None\<close> until the first
  \<^verbatim>\<open>Store\<close>, then the stored \<open>keysType\<close>. \<open>logged\<close> collects the calls of
  \<^verbatim>\<open>logger\<close> in order.
\<close>

record state =
  keysValue :: "keysType option"
  logged :: "logline list"

definition initial_state :: state where
  "initial_state = \<lparr>keysValue = None, logged = []\<rparr>"

section \<open>shouldShortCircutError\<close>

definition shortCircuitErrors :: "uint32 list" where
  "shortCircuitErrors =
     [ValidationErrorMalformed,
      ValidationErrorAudience,
      ValidationErrorExpired,
      ValidationErrorIssuedAt,
      ValidationErrorIssuer,
      ValidationErrorNotValidYet,
      ValidationErrorId,
      ValidationErrorClaimsInvalid]"

text \<open>
  \<^verbatim>\<open>var ve jwt.ValidationError; errors.As(err, &ve)\<close>: the target is the struct type, so
  \<^verbatim>\<open>errors.As\<close> walks the \<^verbatim>\<open>Unwrap\<close> chain of \<open>err\<close> for an error whose dynamic type
  is assignable to \<^verbatim>\<open>jwt.ValidationError\<close>. A \<^verbatim>\<open>*jwt.ValidationError\<close> is not, and the
  library's type has neither \<^verbatim>\<open>Unwrap\<close> nor \<^verbatim>\<open>As\<close>.
\<close>

fun errors_As :: "error \<Rightarrow> ValidationError option" where
  "errors_As (ValidationErrorValue ve) = Some ve"
| "errors_As (ValidationErrorPointer ve) = None"
| "errors_As (errorString s) = None"
| "errors_As (wrapError s e) = errors_As e"

text \<open>The loop \<^verbatim>\<open>for _, bitmask := range shortCircuitErrors\<close>.\<close>

fun range_bitmasks :: "ValidationError \<Rightarrow> uint32 list \<Rightarrow> bool" where
  "range_bitmasks ve [] = False"
| "range_bitmasks ve (bitmask # rest) =
     (if Errors ve AND bitmask \<noteq> 0 then True else range_bitmasks ve rest)"

definition shouldShortCircutError :: "error \<Rightarrow> bool" where
  "shouldShortCircutError err =
     (case errors_As err of
        Some ve \<Rightarrow> range_bitmasks ve shortCircuitErrors
      | None \<Rightarrow> False)"

section \<open>ValidateToken\<close>

text \<open>
  \<^verbatim>\<open>jwt.ParseWithClaims\<close> is the library's: it is a parameter \<open>P\<close> of the model, from
  the token string and the key that the key function hands out to the error or the parsed
  token. The result of \<open>ValidateToken\<close> is the pair the Go function returns, preceded by
  the keys \<^verbatim>\<open>jwt.ParseWithClaims\<close> was called with, in call order.
\<close>

type_synonym ParseWithClaims = "string \<Rightarrow> PublicKey \<Rightarrow> error + Token"

type_synonym outcome = "PublicKey list \<times> AuthenticationToken option \<times> error option"

text \<open>The type assertion \<^verbatim>\<open>claims, ok := token.Claims.(*AuthenticationToken)\<close>.\<close>

fun assert_AuthenticationToken :: "jwt_Claims \<Rightarrow> AuthenticationToken option \<times> bool" where
  "assert_AuthenticationToken (AuthenticationTokenClaims c) = (Some c, True)"
| "assert_AuthenticationToken (OtherClaims x) = (None, False)"

definition attempted :: "PublicKey \<Rightarrow> outcome \<Rightarrow> outcome" where
  "attempted key r = (key # fst r, snd r)"

fun range_keys :: "ParseWithClaims \<Rightarrow> string \<Rightarrow> keysType \<Rightarrow> error option \<Rightarrow> outcome" where
  "range_keys P token [] lastErr = ([], None, lastErr)"
| "range_keys P token (key # keys) lastErr =
     (case P token key of
        Inl err \<Rightarrow>
          if shouldShortCircutError err then ([key], None, Some err)
          else attempted key (range_keys P token keys (Some err))
      | Inr tok \<Rightarrow>
          (case assert_AuthenticationToken (Claims tok) of
             (claims, ok) \<Rightarrow>
               if ok \<and> Valid tok \<and> Alg tok = jwtAlg then ([key], claims, None)
               else attempted key
                      (range_keys P token keys (Some (NewValidationError '''' 0)))))"

definition ValidateToken :: "ParseWithClaims \<Rightarrow> state \<Rightarrow> string \<Rightarrow> outcome" where
  "ValidateToken P s token =
     (case keysValue s of
        None \<Rightarrow> ([], None, Some (errorString ''no public keys loaded''))
      | Some keys \<Rightarrow> range_keys P token keys None)"

section \<open>validatorMiddleware\<close>

text \<open>
  Modelled from the spec: package \<^verbatim>\<open>secrets\<close> is not among the sources. A versioned
  secret bundle is the sequence of its versions' payloads, which is what \<^verbatim>\<open>GetAll\<close>
  returns; the store answers a path with a bundle or an error.
\<close>

type_synonym Secret = string

record VersionedSecret =
  GetAll :: "Secret list"

record Secrets =
  GetVersionedSecret :: "string \<Rightarrow> error + VersionedSecret"

text \<open>\<^verbatim>\<open>jwt.ParseRSAPublicKeyFromPEM\<close> is the library's, a parameter of the model.\<close>

type_synonym ParseRSAPublicKeyFromPEM = "Secret \<Rightarrow> error + PublicKey"

definition logger :: "logline \<Rightarrow> state \<Rightarrow> state" where
  "logger msg s = s\<lparr>logged := logged s @ [msg]\<rparr>"

text \<open>The loop \<^verbatim>\<open>for i, v := range all\<close>, from index \<open>i\<close> on.\<close>

fun range_all ::
  "ParseRSAPublicKeyFromPEM \<Rightarrow> nat \<Rightarrow> Secret list \<Rightarrow> keysType \<Rightarrow> state \<Rightarrow> keysType \<times> state" where
  "range_all PEM i [] keys s = (keys, s)"
| "range_all PEM i (v # vs) keys s =
     (case PEM v of
        Inl err \<Rightarrow> range_all PEM (Suc i) vs keys (logger (FailedToParseKey i err) s)
      | Inr key \<Rightarrow> range_all PEM (Suc i) vs (keys @ [key]) s)"

text \<open>The body of the returned handler, up to its return.\<close>

definition validatorMiddleware_body :: "ParseRSAPublicKeyFromPEM \<Rightarrow> Secrets \<Rightarrow> state \<Rightarrow> state" where
  "validatorMiddleware_body PEM sec s =
     (case GetVersionedSecret sec authenticationPubKeySecretPath of
        Inl err \<Rightarrow> logger (FailedToGetSecrets authenticationPubKeySecretPath err) s
      | Inr versioned \<Rightarrow>
          (case range_all PEM 0 (GetAll versioned) [] s of
             (keys, s') \<Rightarrow>
               if length keys = 0 then logger NoValidKeys s'
               else s'\<lparr>keysValue := Some keys\<rparr>))"

text \<open>
  \<^verbatim>\<open>defer next(sec)\<close>: the next handler runs when the body returns, on every path.
\<close>

definition validatorMiddleware ::
  "ParseRSAPublicKeyFromPEM \<Rightarrow> (Secrets \<Rightarrow> state \<Rightarrow> state) \<Rightarrow> Secrets \<Rightarrow> state \<Rightarrow> state" where
  "validatorMiddleware PEM next sec s = next sec (validatorMiddleware_body PEM sec s)"

section \<open>Notions used to state the properties\<close>

text \<open>
  The seven failure kinds the specification names as aborting the key loop: malformed,
  audience-mismatch, expired, issued-in-future, issuer-mismatch, id-invalid and
  claims-invalid, as the flags that stand for them.
\<close>

definition spec_abort_kinds :: "uint32 list" where
  "spec_abort_kinds =
     [ValidationErrorMalformed,
      ValidationErrorAudience,
      ValidationErrorExpired,
      ValidationErrorIssuedAt,
      ValidationErrorIssuer,
      ValidationErrorId,
      ValidationErrorClaimsInvalid]"

text \<open>An error is of one of the kinds \<open>masks\<close> when it carries one of their flags.\<close>

definition carries_any :: "uint32 list \<Rightarrow> error \<Rightarrow> bool" where
  "carries_any masks err =
     (case error_flags err of
        None \<Rightarrow> False
      | Some flags \<Rightarrow> list_ex (\<lambda>bitmask. flags AND bitmask \<noteq> 0) masks)"

text \<open>
  A key attempt that neither ends the loop nor succeeds: the parser fails with an error
  that does not short-circuit, or it returns a token that the check of line 78 rejects.
  \<open>remembered\<close> is the error such an attempt leaves in \<^verbatim>\<open>lastErr\<close>.
\<close>

definition accepts :: "Token \<Rightarrow> bool" where
  "accepts tok =
     (snd (assert_AuthenticationToken (Claims tok)) \<and> Valid tok \<and> Alg tok = jwtAlg)"

definition passes_over :: "ParseWithClaims \<Rightarrow> string \<Rightarrow> PublicKey \<Rightarrow> bool" where
  "passes_over P token key =
     (case P token key of
        Inl err \<Rightarrow> \<not> shouldShortCircutError err
      | Inr tok \<Rightarrow> \<not> accepts tok)"

definition remembered :: "ParseWithClaims \<Rightarrow> string \<Rightarrow> PublicKey \<Rightarrow> error" where
  "remembered P token key =
     (case P token key of
        Inl err \<Rightarrow> err
      | Inr tok \<Rightarrow> NewValidationError '''' 0)"

text \<open>
  The successfully parsed keys of a bundle in bundle order, and the log lines of the
  versions that do not parse, numbered from \<open>i\<close>.
\<close>

definition parsed_keys :: "ParseRSAPublicKeyFromPEM \<Rightarrow> Secret list \<Rightarrow> keysType" where
  "parsed_keys PEM all =
     List.map_filter (\<lambda>v. case PEM v of Inl err \<Rightarrow> None | Inr key \<Rightarrow> Some key) all"

fun parse_failures :: "ParseRSAPublicKeyFromPEM \<Rightarrow> nat \<Rightarrow> Secret list \<Rightarrow> logline list" where
  "parse_failures PEM i [] = []"
| "parse_failures PEM i (v # vs) =
     (case PEM v of
        Inl err \<Rightarrow> FailedToParseKey i err # parse_failures PEM (Suc i) vs
      | Inr key \<Rightarrow> parse_failures PEM (Suc i) vs)"


section \<open>ValidateToken and the library's clock\<close>

text \<open>
  \<^verbatim>\<open>jwt.ParseWithClaims\<close> validates the temporal claims of a token against the reading of
  the library's clock (\<^verbatim>\<open>jwt.TimeFunc\<close>) at the moment of the call, so the answer for one
  token and one key is not the same at every call. Here the parser is a relation between
  the clock reading, the token string, the key and an answer; a run of
  \<open>ValidateToken\<close> is a relation between the package state, the token string, the clock
  readings \<open>clk i\<close> at the parser calls of the run (\<open>i\<close> counts the calls) and an
  outcome. The rules follow the branches of the function and of its loop.
\<close>

type_synonym clock = int

type_synonym ParseWithClaims_at = "clock \<Rightarrow> string \<Rightarrow> PublicKey \<Rightarrow> error + Token \<Rightarrow> bool"

inductive range_keys_at ::
  "ParseWithClaims_at \<Rightarrow> (nat \<Rightarrow> clock) \<Rightarrow> string \<Rightarrow> nat \<Rightarrow> keysType \<Rightarrow> error option
     \<Rightarrow> outcome \<Rightarrow> bool"
  for R :: ParseWithClaims_at and clk :: "nat \<Rightarrow> clock" and token :: string
where
  exhausted:
    "range_keys_at R clk token i [] lastErr ([], None, lastErr)"
| short_circuit:
    "R (clk i) token key (Inl err) \<Longrightarrow> shouldShortCircutError err \<Longrightarrow>
     range_keys_at R clk token i (key # keys) lastErr ([key], None, Some err)"
| try_next:
    "R (clk i) token key (Inl err) \<Longrightarrow> \<not> shouldShortCircutError err \<Longrightarrow>
     range_keys_at R clk token (Suc i) keys (Some err) out \<Longrightarrow>
     range_keys_at R clk token i (key # keys) lastErr (attempted key out)"
| accepted:
    "R (clk i) token key (Inr tok) \<Longrightarrow> accepts tok \<Longrightarrow>
     range_keys_at R clk token i (key # keys) lastErr
       ([key], fst (assert_AuthenticationToken (Claims tok)), None)"
| rejected:
    "R (clk i) token key (Inr tok) \<Longrightarrow> \<not> accepts tok \<Longrightarrow>
     range_keys_at R clk token (Suc i) keys (Some (NewValidationError '''' 0)) out \<Longrightarrow>
     range_keys_at R clk token i (key # keys) lastErr (attempted key out)"

inductive ValidateToken_at ::
  "ParseWithClaims_at \<Rightarrow> (nat \<Rightarrow> clock) \<Rightarrow> state \<Rightarrow> string \<Rightarrow> outcome \<Rightarrow> bool"
where
  not_loaded:
    "keysValue s = None \<Longrightarrow>
     ValidateToken_at R clk s token ([], None, Some (errorString ''no public keys loaded''))"
| loaded:
    "keysValue s = Some keys \<Longrightarrow> range_keys_at R clk token 0 keys None out \<Longrightarrow>
     ValidateToken_at R clk s token out"

text \<open>
  A parser that answers every call, and with one answer for a given clock reading, token
  and key.
\<close>

definition functional_parser :: "ParseWithClaims_at \<Rightarrow> bool" where
  "functional_parser R = (\<forall>now token key. \<exists>!answer. R now token key answer)"

section \<open>Sample inputs\<close>

definition K1 :: PublicKey where
  "K1 = \<lparr>N = 3233, E = 17\<rparr>"

definition K2 :: PublicKey where
  "K2 = \<lparr>N = 2773, E = 17\<rparr>"

definition K3 :: PublicKey where
  "K3 = \<lparr>N = 3127, E = 3\<rparr>"

definition sample_claims :: AuthenticationToken where
  "sample_claims =
     \<lparr>Subject = ''t2_user'', Audience = ''baseplate'', Issuer = ''gateway'',
      IssuedAt = 1000, ExpiresAt = 2000, identity_fields = ''roles''\<rparr>"

definition sample_token :: Token where
  "sample_token =
     \<lparr>Raw = ''h.c.s'', Alg = ''RS256'',
      Claims = AuthenticationTokenClaims sample_claims, Valid = True\<rparr>"

definition signature_error :: error where
  "signature_error =
     NewValidationError ''crypto/rsa: verification error'' ValidationErrorSignatureInvalid"

text \<open>A parser for a token signed with the private key of \<open>K2\<close>.\<close>

definition signed_by_K2 :: ParseWithClaims where
  "signed_by_K2 token key = (if key = K2 then Inr sample_token else Inl signature_error)"

text \<open>A parser under which no key verifies the token.\<close>

definition signed_by_nobody :: ParseWithClaims where
  "signed_by_nobody token key = Inl signature_error"

text \<open>
  A parser for a token signed with the private key of \<open>K1\<close> whose expiry has passed, as
  the library reports it: a \<^verbatim>\<open>*ValidationError\<close> with the expired flag, and the
  signature flag too under any other key.
\<close>

definition expired_signed_by_K1 :: ParseWithClaims where
  "expired_signed_by_K1 token key =
     Inl (ValidationErrorPointer
            \<lparr>Errors = (if key = K1 then ValidationErrorExpired
                       else ValidationErrorExpired OR ValidationErrorSignatureInvalid),
             text_of = ''Token is expired''\<rparr>)"



text \<open>
  A parser for a string that is no token, as the library reports it under every key: a
  \<^verbatim>\<open>*ValidationError\<close> with the malformed flag.
\<close>

definition malformed_error :: error where
  "malformed_error =
     NewValidationError ''token contains an invalid number of segments'' ValidationErrorMalformed"

definition not_a_token :: ParseWithClaims where
  "not_a_token token key = Inl malformed_error"

text \<open>
  A parser with a clock for a token signed with the private key of \<open>K1\<close> that carries
  \<open>sample_claims\<close>: it verifies under \<open>K1\<close> up to the expiry of the claims, and is
  reported expired afterwards.
\<close>

definition expired_error :: error where
  "expired_error = NewValidationError ''Token is expired'' ValidationErrorExpired"

definition expiring_signed_by_K1 :: ParseWithClaims_at where
  "expiring_signed_by_K1 now token key answer =
     (answer =
        (if now \<le> ExpiresAt sample_claims then
           (if key = K1 then Inr sample_token else Inl signature_error)
         else
           (if key = K1 then Inl expired_error
            else Inl (NewValidationError ''Token is expired''
                        (ValidationErrorExpired OR ValidationErrorSignatureInvalid)))))"

definition published :: "keysType \<Rightarrow> state" where
  "published keys = \<lparr>keysValue = Some keys, logged = []\<rparr>"

definition sample_PEM :: ParseRSAPublicKeyFromPEM where
  "sample_PEM v =
     (if v = ''pem K1'' then Inr K1
      else if v = ''pem K2'' then Inr K2
      else Inl (errorString ''Invalid Key: Key must be PEM encoded PKCS1 or PKCS8 private key''))"

definition bundle_of :: "Secret list \<Rightarrow> Secrets" where
  "bundle_of all = \<lparr>GetVersionedSecret = (\<lambda>path. Inr \<lparr>GetAll = all\<rparr>)\<rparr>"

definition no_secret :: Secrets where
  "no_secret = \<lparr>GetVersionedSecret = (\<lambda>path. Inl (errorString ''secret not found''))\<rparr>"

text \<open>A next handler that leaves the package state alone.\<close>

definition next_done :: "Secrets \<Rightarrow> state \<Rightarrow> state" where
  "next_done = (\<lambda>sec s. s)"

section \<open>Properties\<close>

subsection \<open>Auxiliary facts\<close>

lemma attempted_simp [simp]: "attempted key (tried, r) = (key # tried, r)"
  by (simp add: attempted_def)

lemma range_bitmasks_list_ex:
  "range_bitmasks ve masks = list_ex (\<lambda>bitmask. Errors ve AND bitmask \<noteq> 0) masks"
  by (induction masks) auto

lemma errors_As_flags: "errors_As err = Some ve \<Longrightarrow> error_flags err = Some (Errors ve)"
  by (induction err) auto

lemma shouldShortCircutError_matched:
  "errors_As err = Some ve \<Longrightarrow>
   shouldShortCircutError err = carries_any shortCircuitErrors err"
  by (simp add: shouldShortCircutError_def carries_any_def errors_As_flags range_bitmasks_list_ex)

lemma shouldShortCircutError_unmatched:
  "errors_As err = None \<Longrightarrow> \<not> shouldShortCircutError err"
  by (simp add: shouldShortCircutError_def)

text \<open>
  No error of the dynamic type \<^verbatim>\<open>*jwt.ValidationError\<close> short-circuits, whatever its
  flags: \<^verbatim>\<open>errors.As\<close> does not match it against the struct type.
\<close>

lemma shouldShortCircutError_pointer:
  "\<not> shouldShortCircutError (ValidationErrorPointer ve)"
  by (simp add: shouldShortCircutError_def)

lemma shouldShortCircutError_NewValidationError:
  "\<not> shouldShortCircutError (NewValidationError errorText errorFlags)"
  by (simp add: NewValidationError_def shouldShortCircutError_pointer)

lemma shouldShortCircutError_carries:
  "shouldShortCircutError err \<Longrightarrow> carries_any shortCircuitErrors err"
  by (cases "errors_As err")
     (auto simp: shouldShortCircutError_unmatched shouldShortCircutError_matched)

lemma range_keys_error:
  "P token key = Inl err \<Longrightarrow>
   range_keys P token (key # keys) lastErr =
     (if shouldShortCircutError err then ([key], None, Some err)
      else attempted key (range_keys P token keys (Some err)))"
  by simp

lemma range_keys_passes_over:
  "passes_over P token key \<Longrightarrow>
   range_keys P token (key # keys) lastErr =
     attempted key (range_keys P token keys (Some (remembered P token key)))"
  by (auto simp: passes_over_def remembered_def accepts_def split: sum.splits prod.splits)

lemma range_keys_accepts:
  "P token key = Inr tok \<Longrightarrow> Claims tok = AuthenticationTokenClaims c \<Longrightarrow> Valid tok \<Longrightarrow>
   Alg tok = jwtAlg \<Longrightarrow>
   range_keys P token (key # keys) lastErr = ([key], Some c, None)"
  by simp

lemma range_keys_append:
  "\<forall>k \<in> set pre. passes_over P token k \<Longrightarrow>
   range_keys P token (pre @ rest) lastErr =
     (pre @ fst (range_keys P token rest
                   (if pre = [] then lastErr else Some (remembered P token (last pre)))),
      snd (range_keys P token rest
                   (if pre = [] then lastErr else Some (remembered P token (last pre)))))"
proof (induction pre arbitrary: lastErr)
  case Nil
  then show ?case by simp
next
  case (Cons k pre)
  have step: "range_keys P token ((k # pre) @ rest) lastErr =
      attempted k (range_keys P token (pre @ rest) (Some (remembered P token k)))"
    using range_keys_passes_over [of P token k "pre @ rest" lastErr] Cons.prems by simp
  have rest: "\<forall>k \<in> set pre. passes_over P token k"
    using Cons.prems by simp
  show ?case
    unfolding step Cons.IH [OF rest]
    by (simp add: attempted_def)
qed

lemma range_keys_exhausted:
  "\<forall>k \<in> set keys. passes_over P token k \<Longrightarrow>
   range_keys P token keys lastErr =
     (keys, None, if keys = [] then lastErr else Some (remembered P token (last keys)))"
  using range_keys_append [of keys P token "[]" lastErr] by simp

text \<open>
  A failure that carries the signature flag and no other is passed over, and so is every
  failure of the dynamic type \<^verbatim>\<open>*jwt.ValidationError\<close>.
\<close>

lemma signature_mismatch_passes_over:
  assumes "P token key = Inl err"
      and "error_flags err = Some ValidationErrorSignatureInvalid"
  shows "passes_over P token key"
proof -
  have "\<not> carries_any shortCircuitErrors err"
    using assms(2)
    by (simp add: carries_any_def shortCircuitErrors_def ValidationErrorSignatureInvalid_def
          ValidationErrorMalformed_def ValidationErrorAudience_def ValidationErrorExpired_def
          ValidationErrorIssuedAt_def ValidationErrorIssuer_def ValidationErrorNotValidYet_def
          ValidationErrorId_def ValidationErrorClaimsInvalid_def)
  then have "\<not> shouldShortCircutError err"
    using shouldShortCircutError_carries [of err] by blast
  with assms(1) show ?thesis
    by (simp add: passes_over_def)
qed

lemma pointer_error_passes_over:
  "P token key = Inl (ValidationErrorPointer ve) \<Longrightarrow> passes_over P token key"
  by (simp add: passes_over_def shouldShortCircutError_pointer)

lemma pointer_errors_try_every_key:
  assumes "\<forall>k \<in> set keys. \<exists>ve. P token k = Inl (ValidationErrorPointer ve)"
  shows "fst (range_keys P token keys lastErr) = keys"
proof -
  have "\<forall>k \<in> set keys. passes_over P token k"
    using assms pointer_error_passes_over by blast
  from range_keys_exhausted [OF this] show ?thesis by simp
qed

lemma range_keys_nil_nil:
  "range_keys P token keys lastErr = (tried, None, None) \<Longrightarrow> keys = [] \<and> lastErr = None"
proof (induction keys arbitrary: lastErr tried)
  case Nil
  then show ?case by simp
next
  case (Cons key keys)
  show ?case
  proof (cases "P token key")
    case (Inl err)
    show ?thesis
    proof (cases "shouldShortCircutError err")
      case True
      with Inl Cons.prems show ?thesis by simp
    next
      case False
      with Inl Cons.prems
      have "attempted key (range_keys P token keys (Some err)) = (tried, None, None)"
        by simp
      then have "range_keys P token keys (Some err) = (tl tried, None, None)"
        by (cases "range_keys P token keys (Some err)") (auto simp: attempted_def)
      from Cons.IH [OF this] show ?thesis by simp
    qed
  next
    case (Inr tok)
    show ?thesis
    proof (cases "accepts tok")
      case True
      with Inr Cons.prems show ?thesis
        by (cases "Claims tok") (auto simp: accepts_def)
    next
      case False
      with Inr have "passes_over P token key"
        by (simp add: passes_over_def)
      from range_keys_passes_over [OF this] Cons.prems
      have "attempted key (range_keys P token keys (Some (remembered P token key)))
              = (tried, None, None)"
        by simp
      then have "range_keys P token keys (Some (remembered P token key)) = (tl tried, None, None)"
        by (cases "range_keys P token keys (Some (remembered P token key))")
           (auto simp: attempted_def)
      from Cons.IH [OF this] show ?thesis by simp
    qed
  qed
qed

lemma range_all_eq:
  "range_all PEM i all keys s =
     (keys @ parsed_keys PEM all, s\<lparr>logged := logged s @ parse_failures PEM i all\<rparr>)"
proof (induction all arbitrary: i keys s)
  case Nil
  then show ?case by (simp add: parsed_keys_def)
next
  case (Cons v vs)
  then show ?case
    by (cases "PEM v") (simp_all add: parsed_keys_def logger_def)
qed

lemma parsed_keys_empty:
  "(parsed_keys PEM all = []) = (\<forall>v \<in> set all. isl (PEM v))"
  by (induction all) (auto simp: parsed_keys_def split: sum.splits)

lemma validatorMiddleware_body_fetch_error:
  "GetVersionedSecret sec authenticationPubKeySecretPath = Inl err \<Longrightarrow>
   validatorMiddleware_body PEM sec s =
     s\<lparr>logged := logged s @ [FailedToGetSecrets authenticationPubKeySecretPath err]\<rparr>"
  by (simp add: validatorMiddleware_body_def logger_def)

lemma validatorMiddleware_body_no_keys:
  "GetVersionedSecret sec authenticationPubKeySecretPath = Inr versioned \<Longrightarrow>
   parsed_keys PEM (GetAll versioned) = [] \<Longrightarrow>
   validatorMiddleware_body PEM sec s =
     s\<lparr>logged := logged s @ parse_failures PEM 0 (GetAll versioned) @ [NoValidKeys]\<rparr>"
  by (simp add: validatorMiddleware_body_def range_all_eq logger_def)

lemma validatorMiddleware_body_publish:
  "GetVersionedSecret sec authenticationPubKeySecretPath = Inr versioned \<Longrightarrow>
   parsed_keys PEM (GetAll versioned) \<noteq> [] \<Longrightarrow>
   validatorMiddleware_body PEM sec s =
     s\<lparr>logged := logged s @ parse_failures PEM 0 (GetAll versioned),
       keysValue := Some (parsed_keys PEM (GetAll versioned))\<rparr>"
  by (simp add: validatorMiddleware_body_def range_all_eq)

lemma validatorMiddleware_body_nonempty:
  "keysValue s \<noteq> Some [] \<Longrightarrow> keysValue (validatorMiddleware_body PEM sec s) \<noteq> Some []"
proof (cases "GetVersionedSecret sec authenticationPubKeySecretPath")
  case (Inl err)
  assume "keysValue s \<noteq> Some []"
  with Inl show ?thesis by (simp add: validatorMiddleware_body_fetch_error)
next
  case (Inr versioned)
  assume "keysValue s \<noteq> Some []"
  with Inr show ?thesis
    by (cases "parsed_keys PEM (GetAll versioned) = []")
       (simp_all add: validatorMiddleware_body_no_keys validatorMiddleware_body_publish)
qed

lemma ValidateToken_empty_set:
  "ValidateToken P \<lparr>keysValue = Some [], logged = l\<rparr> token = ([], None, None)"
  by (simp add: ValidateToken_def)

text \<open>Facts about the runs with a clock.\<close>

inductive_cases range_keys_at_NilE: "range_keys_at R clk token i [] lastErr out"

inductive_cases range_keys_at_ConsE: "range_keys_at R clk token i (key # keys) lastErr out"

lemma functional_parser_unique:
  "functional_parser R \<Longrightarrow> R now token key a \<Longrightarrow> R now token key b \<Longrightarrow> a = b"
  unfolding functional_parser_def by blast

lemma functional_parser_answers:
  "functional_parser R \<Longrightarrow> \<exists>answer. R now token key answer"
  unfolding functional_parser_def by blast

lemma range_keys_at_unique:
  assumes "functional_parser R"
  shows "range_keys_at R clk token i keys lastErr out \<Longrightarrow>
         range_keys_at R clk token i keys lastErr out' \<Longrightarrow> out = out'"
proof (induction arbitrary: out' rule: range_keys_at.induct)
  case (exhausted i lastErr)
  then show ?case by (auto elim: range_keys_at_NilE)
next
  case (short_circuit i key err keys lastErr)
  have same: "answer = Inl err" if "R (clk i) token key answer" for answer
    using functional_parser_unique [OF assms that short_circuit.hyps(1)] .
  from short_circuit.prems show ?case
    by (rule range_keys_at_ConsE) (use same short_circuit.hyps(2) in auto)
next
  case (try_next i key err keys out lastErr)
  have same: "answer = Inl err" if "R (clk i) token key answer" for answer
    using functional_parser_unique [OF assms that try_next.hyps(1)] .
  from try_next.prems show ?case
    by (rule range_keys_at_ConsE) (use same try_next.hyps(2) try_next.IH in auto)
next
  case (accepted i key tok keys lastErr)
  have same: "answer = Inr tok" if "R (clk i) token key answer" for answer
    using functional_parser_unique [OF assms that accepted.hyps(1)] .
  from accepted.prems show ?case
    by (rule range_keys_at_ConsE) (use same accepted.hyps(2) in auto)
next
  case (rejected i key tok keys out lastErr)
  have same: "answer = Inr tok" if "R (clk i) token key answer" for answer
    using functional_parser_unique [OF assms that rejected.hyps(1)] .
  from rejected.prems show ?case
    by (rule range_keys_at_ConsE) (use same rejected.hyps(2) rejected.IH in auto)
qed

lemma range_keys_at_total:
  assumes "functional_parser R"
  shows "\<exists>out. range_keys_at R clk token i keys lastErr out"
proof (induction keys arbitrary: i lastErr)
  case Nil
  show ?case by (blast intro: range_keys_at.exhausted)
next
  case (Cons key keys)
  obtain answer where a: "R (clk i) token key answer"
    using functional_parser_answers [OF assms] by blast
  show ?case
  proof (cases answer)
    case (Inl err)
    show ?thesis
    proof (cases "shouldShortCircutError err")
      case True
      with a Inl show ?thesis by (blast intro: range_keys_at.short_circuit)
    next
      case False
      obtain out where "range_keys_at R clk token (Suc i) keys (Some err) out"
        using Cons.IH by blast
      with a Inl False show ?thesis by (blast intro: range_keys_at.try_next)
    qed
  next
    case (Inr tok)
    show ?thesis
    proof (cases "accepts tok")
      case True
      with a Inr show ?thesis by (blast intro: range_keys_at.accepted)
    next
      case False
      obtain out where
        "range_keys_at R clk token (Suc i) keys (Some (NewValidationError '''' 0)) out"
        using Cons.IH by blast
      with a Inr False show ?thesis by (blast intro: range_keys_at.rejected)
    qed
  qed
qed

text \<open>
  For a parser that does not look at the clock, the runs with a clock are the runs of
  \<open>range_keys\<close>.
\<close>

lemma clockless_functional: "functional_parser (\<lambda>now t k answer. answer = P t k)"
  by (simp add: functional_parser_def)

lemma range_keys_at_range_keys:
  "range_keys_at (\<lambda>now t k answer. answer = P t k) clk token i keys lastErr
     (range_keys P token keys lastErr)"
proof (induction keys arbitrary: i lastErr)
  case Nil
  show ?case by (simp add: range_keys_at.exhausted)
next
  case (Cons key keys)
  show ?case
  proof (cases "P token key")
    case (Inl err)
    show ?thesis
    proof (cases "shouldShortCircutError err")
      case True
      have "range_keys_at (\<lambda>now t k answer. answer = P t k) clk token i (key # keys) lastErr
          ([key], None, Some err)"
        by (rule range_keys_at.short_circuit) (simp_all add: Inl True)
      with Inl True show ?thesis by simp
    next
      case False
      have "range_keys_at (\<lambda>now t k answer. answer = P t k) clk token i (key # keys) lastErr
          (attempted key (range_keys P token keys (Some err)))"
        by (rule range_keys_at.try_next [where err = err]) (simp_all add: Inl False Cons.IH)
      with Inl False show ?thesis by simp
    qed
  next
    case (Inr tok)
    show ?thesis
    proof (cases "accepts tok")
      case True
      have "range_keys_at (\<lambda>now t k answer. answer = P t k) clk token i (key # keys) lastErr
          ([key], fst (assert_AuthenticationToken (Claims tok)), None)"
        by (rule range_keys_at.accepted) (simp_all add: Inr True)
      with Inr True show ?thesis
        by (cases "Claims tok") (auto simp: accepts_def)
    next
      case False
      have po: "passes_over P token key"
        using Inr False by (simp add: passes_over_def)
      have eq: "range_keys P token (key # keys) lastErr
          = attempted key (range_keys P token keys (Some (NewValidationError '''' 0)))"
        using range_keys_passes_over [OF po, of keys lastErr]
        by (simp only: remembered_def Inr sum.case)
      show ?thesis
        unfolding eq
        by (rule range_keys_at.rejected [where tok = tok]) (simp_all add: Inr False Cons.IH)
    qed
  qed
qed

lemma range_keys_at_clockless:
  "range_keys_at (\<lambda>now t k answer. answer = P t k) clk token i keys lastErr out
     = (out = range_keys P token keys lastErr)"
  using range_keys_at_unique [OF clockless_functional, of P clk token i keys lastErr]
    range_keys_at_range_keys [of P clk token i keys lastErr]
  by blast

lemma sample_keys_distinct [simp]:
  "K1 \<noteq> K2" "K2 \<noteq> K1" "K1 \<noteq> K3" "K3 \<noteq> K1" "K2 \<noteq> K3" "K3 \<noteq> K2"
  by (simp_all add: K1_def K2_def K3_def)

subsection \<open>The claims\<close>

text \<open>
  C3: with nothing ever stored in \<open>keysValue\<close>, \<open>ValidateToken\<close> fails with the
  error "no public keys loaded" for every token string and calls the parser for no key.
\<close>

theorem ValidateToken_no_keys:
  "keysValue s = None \<Longrightarrow>
   ValidateToken P s token = ([], None, Some (errorString ''no public keys loaded''))"
  by (simp add: ValidateToken_def)

theorem ValidateToken_no_keys_witness:
  "keysValue initial_state = None \<and>
   ValidateToken (\<lambda>t k. Inl (errorString ''unused'')) initial_state ''any.token.string''
     = ([], None, Some (errorString ''no public keys loaded''))"
  using ValidateToken_no_keys [of initial_state "\<lambda>t k. Inl (errorString ''unused'')" "''any.token.string''"]
  by (simp add: initial_state_def)


text \<open>
  C1: the run of the key loop on a string that is no token, with two published keys, the
  parser answering as the library does (a \<^verbatim>\<open>*ValidationError\<close> with the malformed
  flag). Malformed is one of the seven kinds that are to end the loop at once, yet the
  parser is called for the second key too: the error is not matched by the
  \<^verbatim>\<open>errors.As\<close> of \<open>shouldShortCircutError\<close>, whose target is the struct type.
\<close>

theorem malformed_token_tries_every_key:
  "carries_any spec_abort_kinds malformed_error
   \<and> \<not> shouldShortCircutError malformed_error
   \<and> ValidateToken not_a_token (published [K1, K2]) ''not a token''
       = ([K1, K2], None, Some malformed_error)"
proof -
  have kind: "carries_any spec_abort_kinds malformed_error"
    by (simp add: carries_any_def spec_abort_kinds_def malformed_error_def
          NewValidationError_def ValidationErrorMalformed_def)
  have no_short: "\<not> shouldShortCircutError malformed_error"
    by (simp add: malformed_error_def shouldShortCircutError_NewValidationError)
  have run: "ValidateToken not_a_token (published [K1, K2]) ''not a token''
      = ([K1, K2], None, Some malformed_error)"
    by (simp add: ValidateToken_def published_def not_a_token_def no_short)
  from kind no_short run show ?thesis by blast
qed

text \<open>
  C2: the run of \<open>ValidateToken\<close> on an expired token with three published keys, the
  parser answering as the library does (a \<^verbatim>\<open>*ValidationError\<close> with the expired
  flag). The parser is called for every key, not once, and the error of the last key
  comes back.
\<close>

theorem expired_token_tries_every_key:
  "ValidateToken expired_signed_by_K1 (published [K1, K2, K3]) ''h.c.s''
     = ([K1, K2, K3], None,
        Some (ValidationErrorPointer
                \<lparr>Errors = ValidationErrorExpired OR ValidationErrorSignatureInvalid,
                 text_of = ''Token is expired''\<rparr>))"
  by (simp add: ValidateToken_def published_def expired_signed_by_K1_def
        shouldShortCircutError_def)

text \<open>
  C4: an update whose secret fetch fails, or whose bundle has no version that parses,
  leaves the published key set as it was; and no update turns a store that does not hold
  the empty key set into one that does. The next handler of the chain is any handler
  that does not write the key slot.
\<close>

theorem validatorMiddleware_keeps_keys:
  assumes "\<forall>sec' s'. keysValue (next sec' s') = keysValue s'"
  shows "(\<forall>err. GetVersionedSecret sec authenticationPubKeySecretPath = Inl err \<longrightarrow>
            keysValue (validatorMiddleware PEM next sec s) = keysValue s)
       \<and> (\<forall>versioned. GetVersionedSecret sec authenticationPubKeySecretPath = Inr versioned
            \<and> (\<forall>v \<in> set (GetAll versioned). isl (PEM v)) \<longrightarrow>
            keysValue (validatorMiddleware PEM next sec s) = keysValue s)
       \<and> (keysValue s \<noteq> Some [] \<longrightarrow>
            keysValue (validatorMiddleware PEM next sec s) \<noteq> Some [])"
proof -
  have frame: "keysValue (validatorMiddleware PEM next sec s)
      = keysValue (validatorMiddleware_body PEM sec s)"
    using assms by (simp add: validatorMiddleware_def)
  have fetch: "keysValue (validatorMiddleware_body PEM sec s) = keysValue s"
    if "GetVersionedSecret sec authenticationPubKeySecretPath = Inl err" for err
    using that by (simp add: validatorMiddleware_body_fetch_error)
  have none: "keysValue (validatorMiddleware_body PEM sec s) = keysValue s"
    if "GetVersionedSecret sec authenticationPubKeySecretPath = Inr versioned"
      and "\<forall>v \<in> set (GetAll versioned). isl (PEM v)" for versioned
  proof -
    from that(2) have "parsed_keys PEM (GetAll versioned) = []"
      by (simp add: parsed_keys_empty)
    with that(1) show ?thesis
      by (simp add: validatorMiddleware_body_no_keys)
  qed
  show ?thesis
    unfolding frame using fetch none validatorMiddleware_body_nonempty [of s PEM sec]
    by blast
qed

theorem validatorMiddleware_keeps_keys_witness:
  "(\<forall>sec' s'. keysValue (next_done sec' s') = keysValue s')
   \<and> GetVersionedSecret no_secret authenticationPubKeySecretPath
       = Inl (errorString ''secret not found'')
   \<and> keysValue (validatorMiddleware sample_PEM next_done no_secret (published [K1])) = Some [K1]
   \<and> GetVersionedSecret (bundle_of [''garbage'', ''junk'']) authenticationPubKeySecretPath
       = Inr \<lparr>GetAll = [''garbage'', ''junk'']\<rparr>
   \<and> isl (sample_PEM ''garbage'') \<and> isl (sample_PEM ''junk'')
   \<and> keysValue (validatorMiddleware sample_PEM next_done (bundle_of [''garbage'', ''junk''])
        (published [K1])) = Some [K1]
   \<and> keysValue (published [K1]) \<noteq> Some []
   \<and> keysValue (validatorMiddleware sample_PEM next_done (bundle_of [''pem K2''])
        (published [K1])) \<noteq> Some []"
proof -
  have frame: "\<forall>sec' s'. keysValue (next_done sec' s') = keysValue s'"
    by (simp add: next_done_def)
  have fetch: "GetVersionedSecret no_secret authenticationPubKeySecretPath
      = Inl (errorString ''secret not found'')"
    by (simp add: no_secret_def)
  have got: "GetVersionedSecret (bundle_of [''garbage'', ''junk'']) authenticationPubKeySecretPath
      = Inr \<lparr>GetAll = [''garbage'', ''junk'']\<rparr>"
    by (simp add: bundle_of_def)
  have bad: "isl (sample_PEM ''garbage'') \<and> isl (sample_PEM ''junk'')"
    by (simp add: sample_PEM_def)
  have pub: "keysValue (published [K1]) = Some [K1]"
    by (simp add: published_def)
  show ?thesis
    using frame fetch got bad pub
      validatorMiddleware_keeps_keys [OF frame, of no_secret sample_PEM "published [K1]"]
      validatorMiddleware_keeps_keys [OF frame, of "bundle_of [''garbage'', ''junk'']" sample_PEM
        "published [K1]"]
      validatorMiddleware_keeps_keys [OF frame, of "bundle_of [''pem K2'']" sample_PEM
        "published [K1]"]
    by simp
qed

text \<open>
  C5: when at least one version of the fetched bundle parses, the update stores exactly
  the keys that parse, in bundle order, in place of whatever was published; each version
  that does not parse is logged with its index and skipped, and the versions after it
  are still processed.
\<close>

theorem validatorMiddleware_publishes_parsed_keys:
  assumes "GetVersionedSecret sec authenticationPubKeySecretPath = Inr versioned"
      and "parsed_keys PEM (GetAll versioned) \<noteq> []"
      and "\<forall>sec' s'. keysValue (next sec' s') = keysValue s'"
  shows "keysValue (validatorMiddleware PEM next sec s)
           = Some (parsed_keys PEM (GetAll versioned))
       \<and> validatorMiddleware PEM next sec s
           = next sec (s\<lparr>logged := logged s @ parse_failures PEM 0 (GetAll versioned),
                         keysValue := Some (parsed_keys PEM (GetAll versioned))\<rparr>)"
  using assms
  by (simp add: validatorMiddleware_def validatorMiddleware_body_publish)

theorem validatorMiddleware_publishes_parsed_keys_witness:
  "GetVersionedSecret (bundle_of [''pem K2'', ''garbage'', ''pem K1''])
       authenticationPubKeySecretPath
     = Inr \<lparr>GetAll = [''pem K2'', ''garbage'', ''pem K1'']\<rparr>
   \<and> parsed_keys sample_PEM [''pem K2'', ''garbage'', ''pem K1''] = [K2, K1]
   \<and> (\<forall>sec' s'. keysValue (next_done sec' s') = keysValue s')
   \<and> validatorMiddleware sample_PEM next_done (bundle_of [''pem K2'', ''garbage'', ''pem K1''])
        (published [K3])
     = \<lparr>keysValue = Some [K2, K1],
        logged = [FailedToParseKey 1
          (errorString ''Invalid Key: Key must be PEM encoded PKCS1 or PKCS8 private key'')]\<rparr>"
proof -
  have frame: "\<forall>sec' s'. keysValue (next_done sec' s') = keysValue s'"
    by (simp add: next_done_def)
  have got: "GetVersionedSecret (bundle_of [''pem K2'', ''garbage'', ''pem K1''])
       authenticationPubKeySecretPath
     = Inr \<lparr>GetAll = [''pem K2'', ''garbage'', ''pem K1'']\<rparr>"
    by (simp add: bundle_of_def)
  have keys: "parsed_keys sample_PEM [''pem K2'', ''garbage'', ''pem K1''] = [K2, K1]"
    by (simp add: parsed_keys_def sample_PEM_def)
  have nonempty:
    "parsed_keys sample_PEM (GetAll \<lparr>GetAll = [''pem K2'', ''garbage'', ''pem K1'']\<rparr>) \<noteq> []"
    using keys by simp
  have fails: "parse_failures sample_PEM 0 [''pem K2'', ''garbage'', ''pem K1'']
      = [FailedToParseKey 1
          (errorString ''Invalid Key: Key must be PEM encoded PKCS1 or PKCS8 private key'')]"
    by (simp add: sample_PEM_def)
  show ?thesis
    using frame got keys fails
      validatorMiddleware_publishes_parsed_keys [OF got nonempty frame, of "published [K3]"]
    by (simp add: next_done_def published_def)
qed

text \<open>
  C6: when every key before \<open>key\<close> in the published set is passed over (its attempt
  fails without short-circuiting, as a signature mismatch does, or is rejected) and the
  token verifies under \<open>key\<close> with \<^verbatim>\<open>*AuthenticationToken\<close> claims and the accepted
  algorithm, \<open>ValidateToken\<close> calls the parser for the keys up to \<open>key\<close> and for no
  later one, and returns the claims parsed under \<open>key\<close>. With the set \<open>[K1, K2]\<close> and a
  signature mismatch under \<open>K1\<close> these are exactly two attempts.
\<close>

theorem first_accepting_key_wins:
  assumes "keysValue s = Some (pre @ key # post)"
      and "\<forall>k \<in> set pre. passes_over P token k"
      and "P token key = Inr tok"
      and "Claims tok = AuthenticationTokenClaims claims"
      and "Valid tok"
      and "Alg tok = jwtAlg"
  shows "ValidateToken P s token = (pre @ [key], Some claims, None)"
proof -
  have "range_keys P token (key # post)
          (if pre = [] then None else Some (remembered P token (last pre)))
        = ([key], Some claims, None)"
    using assms(3-6) by (rule range_keys_accepts)
  then have "range_keys P token (pre @ key # post) None = (pre @ [key], Some claims, None)"
    using range_keys_append [OF assms(2), of "key # post" None] by simp
  with assms(1) show ?thesis
    by (simp add: ValidateToken_def)
qed

theorem first_accepting_key_wins_witness:
  "keysValue (published [K1, K2, K3]) = Some ([K1] @ K2 # [K3])
   \<and> signed_by_K2 ''h.c.s'' K1 = Inl signature_error
   \<and> error_flags signature_error = Some ValidationErrorSignatureInvalid
   \<and> passes_over signed_by_K2 ''h.c.s'' K1
   \<and> signed_by_K2 ''h.c.s'' K2 = Inr sample_token
   \<and> Claims sample_token = AuthenticationTokenClaims sample_claims
   \<and> Valid sample_token
   \<and> Alg sample_token = jwtAlg
   \<and> ValidateToken signed_by_K2 (published [K1, K2, K3]) ''h.c.s''
       = ([K1, K2], Some sample_claims, None)"
proof -
  have s: "keysValue (published [K1, K2, K3]) = Some ([K1] @ K2 # [K3])"
    by (simp add: published_def)
  have e1: "signed_by_K2 ''h.c.s'' K1 = Inl signature_error"
    by (simp add: signed_by_K2_def)
  have fl: "error_flags signature_error = Some ValidationErrorSignatureInvalid"
    by (simp add: signature_error_def NewValidationError_def)
  have p1: "passes_over signed_by_K2 ''h.c.s'' K1"
    using e1 fl by (rule signature_mismatch_passes_over)
  then have po: "\<forall>k \<in> set [K1]. passes_over signed_by_K2 ''h.c.s'' k"
    by simp
  have ok: "signed_by_K2 ''h.c.s'' K2 = Inr sample_token"
    by (simp add: signed_by_K2_def)
  have c: "Claims sample_token = AuthenticationTokenClaims sample_claims"
    and v: "Valid sample_token" and a: "Alg sample_token = jwtAlg"
    by (simp_all add: sample_token_def jwtAlg_def)
  show ?thesis
    using s e1 fl p1 ok c v a first_accepting_key_wins [OF s po ok c v a]
    by simp
qed




text \<open>
  C8, as amended: for a fixed published key set, a fixed token string and fixed readings
  of the library's clock at the parser calls, and a parser that has one answer for a
  given clock reading, token and key, every run of \<open>ValidateToken\<close> ends with one and
  the same outcome, whatever else the package state holds: the same key attempts and the
  same claims or the same error.
\<close>

theorem ValidateToken_at_deterministic:
  assumes "functional_parser R"
      and "keysValue s = keysValue s'"
  shows "\<exists>out. ValidateToken_at R clk s token out
           \<and> (\<forall>out'. ValidateToken_at R clk s' token out' \<longrightarrow> out' = out)"
proof (cases "keysValue s")
  case None
  have "ValidateToken_at R clk s token ([], None, Some (errorString ''no public keys loaded''))"
    using None by (rule ValidateToken_at.not_loaded)
  moreover have "out' = ([], None, Some (errorString ''no public keys loaded''))"
    if "ValidateToken_at R clk s' token out'" for out'
    using that None assms(2) by (cases rule: ValidateToken_at.cases) auto
  ultimately show ?thesis by blast
next
  case (Some keys)
  obtain out where out: "range_keys_at R clk token 0 keys None out"
    using range_keys_at_total [OF assms(1)] by blast
  have "ValidateToken_at R clk s token out"
    using Some out by (rule ValidateToken_at.loaded)
  moreover have "out' = out" if "ValidateToken_at R clk s' token out'" for out'
    using that
  proof (cases rule: ValidateToken_at.cases)
    case not_loaded
    with Some assms(2) show ?thesis by simp
  next
    case (loaded keys')
    with Some assms(2) have "range_keys_at R clk token 0 keys None out'" by simp
    from range_keys_at_unique [OF assms(1) this out] show ?thesis .
  qed
  ultimately show ?thesis by blast
qed

theorem ValidateToken_at_deterministic_witness:
  "functional_parser expiring_signed_by_K1
   \<and> keysValue (published [K1, K2]) = keysValue ((published [K1, K2])\<lparr>logged := [NoValidKeys]\<rparr>)
   \<and> ValidateToken_at expiring_signed_by_K1 (\<lambda>i. 1500) (published [K1, K2]) ''h.c.s''
       ([K1], Some sample_claims, None)
   \<and> ValidateToken_at expiring_signed_by_K1 (\<lambda>i. 1500)
       ((published [K1, K2])\<lparr>logged := [NoValidKeys]\<rparr>) ''h.c.s''
       ([K1], Some sample_claims, None)
   \<and> \<not> ValidateToken_at expiring_signed_by_K1 (\<lambda>i. 1500)
       ((published [K1, K2])\<lparr>logged := [NoValidKeys]\<rparr>) ''h.c.s''
       ([K1], None, Some expired_error)"
proof -
  let ?s = "published [K1, K2]"
  let ?s' = "(published [K1, K2])\<lparr>logged := [NoValidKeys]\<rparr>"
  have fp: "functional_parser expiring_signed_by_K1"
    by (simp add: functional_parser_def expiring_signed_by_K1_def)
  have same: "keysValue ?s = keysValue ?s'"
    by simp
  have answer: "expiring_signed_by_K1 1500 ''h.c.s'' K1 (Inr sample_token)"
    by (simp add: expiring_signed_by_K1_def sample_claims_def)
  have ok: "accepts sample_token"
    by (simp add: accepts_def sample_token_def jwtAlg_def)
  have "range_keys_at expiring_signed_by_K1 (\<lambda>i. 1500) ''h.c.s'' 0 [K1, K2] None
      ([K1], fst (assert_AuthenticationToken (Claims sample_token)), None)"
    using answer ok by (rule range_keys_at.accepted)
  then have loop: "range_keys_at expiring_signed_by_K1 (\<lambda>i. 1500) ''h.c.s'' 0 [K1, K2] None
      ([K1], Some sample_claims, None)"
    by (simp add: sample_token_def)
  have run: "ValidateToken_at expiring_signed_by_K1 (\<lambda>i. 1500) ?s ''h.c.s''
      ([K1], Some sample_claims, None)"
    by (rule ValidateToken_at.loaded [OF _ loop]) (simp add: published_def)
  have run': "ValidateToken_at expiring_signed_by_K1 (\<lambda>i. 1500) ?s' ''h.c.s''
      ([K1], Some sample_claims, None)"
    by (rule ValidateToken_at.loaded [OF _ loop]) (simp add: published_def)
  obtain out where
    only: "\<forall>out'. ValidateToken_at expiring_signed_by_K1 (\<lambda>i. 1500) ?s' ''h.c.s'' out'
             \<longrightarrow> out' = out"
    using ValidateToken_at_deterministic [OF fp same, of "\<lambda>i. 1500" "''h.c.s''"] by blast
  have "out = ([K1], Some sample_claims, None)"
    using only run' by blast
  with only have other: "\<not> ValidateToken_at expiring_signed_by_K1 (\<lambda>i. 1500) ?s' ''h.c.s''
      ([K1], None, Some expired_error)"
    by auto
  from fp same run run' other show ?thesis by blast
qed

text \<open>
  The claim as the specification words it, with only the key set and the token string
  fixed, fails: the same token with the same published key is accepted by a run before
  its expiry and refused by a run after it.
\<close>

theorem later_run_differs_counterexample:
  "ValidateToken_at expiring_signed_by_K1 (\<lambda>i. 1500) (published [K1]) ''h.c.s''
     ([K1], Some sample_claims, None)
   \<and> ValidateToken_at expiring_signed_by_K1 (\<lambda>i. 2500) (published [K1]) ''h.c.s''
     ([K1], None, Some expired_error)
   \<and> ([K1], Some sample_claims, None) \<noteq> ([K1], None, Some expired_error)"
proof -
  have early: "expiring_signed_by_K1 1500 ''h.c.s'' K1 (Inr sample_token)"
    by (simp add: expiring_signed_by_K1_def sample_claims_def)
  have late: "expiring_signed_by_K1 2500 ''h.c.s'' K1 (Inl expired_error)"
    by (simp add: expiring_signed_by_K1_def sample_claims_def)
  have ok: "accepts sample_token"
    by (simp add: accepts_def sample_token_def jwtAlg_def)
  have no_short: "\<not> shouldShortCircutError expired_error"
    by (simp add: expired_error_def shouldShortCircutError_NewValidationError)
  have "range_keys_at expiring_signed_by_K1 (\<lambda>i. 1500) ''h.c.s'' 0 [K1] None
      ([K1], fst (assert_AuthenticationToken (Claims sample_token)), None)"
    using early ok by (rule range_keys_at.accepted)
  then have loop1: "range_keys_at expiring_signed_by_K1 (\<lambda>i. 1500) ''h.c.s'' 0 [K1] None
      ([K1], Some sample_claims, None)"
    by (simp add: sample_token_def)
  have "range_keys_at expiring_signed_by_K1 (\<lambda>i. 2500) ''h.c.s'' 0 [K1] None
      (attempted K1 ([], None, Some expired_error))"
    using late no_short range_keys_at.exhausted by (rule range_keys_at.try_next)
  then have loop2: "range_keys_at expiring_signed_by_K1 (\<lambda>i. 2500) ''h.c.s'' 0 [K1] None
      ([K1], None, Some expired_error)"
    by simp
  have run1: "ValidateToken_at expiring_signed_by_K1 (\<lambda>i. 1500) (published [K1]) ''h.c.s''
      ([K1], Some sample_claims, None)"
    by (rule ValidateToken_at.loaded [OF _ loop1]) (simp add: published_def)
  have run2: "ValidateToken_at expiring_signed_by_K1 (\<lambda>i. 2500) (published [K1]) ''h.c.s''
      ([K1], None, Some expired_error)"
    by (rule ValidateToken_at.loaded [OF _ loop2]) (simp add: published_def)
  from run1 run2 show ?thesis by simp
qed



text \<open>
  C10: as long as the key slot does not hold the empty key set, \<open>ValidateToken\<close>
  returns claims or an error: never neither.
\<close>

theorem ValidateToken_claims_or_error:
  assumes "keysValue s \<noteq> Some []"
  shows "fst (snd (ValidateToken P s token)) \<noteq> None
       \<or> snd (snd (ValidateToken P s token)) \<noteq> None"
proof (cases "keysValue s")
  case None
  then show ?thesis by (simp add: ValidateToken_def)
next
  case (Some keys)
  with assms have ne: "keys \<noteq> []" by simp
  obtain tried claims err where r: "range_keys P token keys None = (tried, claims, err)"
    by (cases "range_keys P token keys None") auto
  have "claims \<noteq> None \<or> err \<noteq> None"
  proof (rule ccontr)
    assume "\<not> (claims \<noteq> None \<or> err \<noteq> None)"
    with r have "range_keys P token keys None = (tried, None, None)" by simp
    from range_keys_nil_nil [OF this] ne show False by simp
  qed
  with Some r show ?thesis by (simp add: ValidateToken_def)
qed

theorem ValidateToken_claims_or_error_witness:
  "keysValue (published [K1, K2]) \<noteq> Some []
   \<and> fst (snd (ValidateToken signed_by_K2 (published [K1, K2]) ''h.c.s'')) = Some sample_claims
   \<and> snd (snd (ValidateToken signed_by_nobody (published [K1, K2]) ''h.c.s''))
       = Some signature_error"
proof -
  have ne: "keysValue (published [K1, K2]) \<noteq> Some []"
    by (simp add: published_def)
  have ok: "fst (snd (ValidateToken signed_by_K2 (published [K1, K2]) ''h.c.s''))
      = Some sample_claims"
    by (simp add: ValidateToken_def published_def signed_by_K2_def signature_error_def
          NewValidationError_def shouldShortCircutError_def sample_token_def jwtAlg_def)
  have bad: "snd (snd (ValidateToken signed_by_nobody (published [K1, K2]) ''h.c.s''))
      = Some signature_error"
    by (simp add: ValidateToken_def published_def signed_by_nobody_def signature_error_def
          NewValidationError_def shouldShortCircutError_def)
  show ?thesis
    using ne ok bad ValidateToken_claims_or_error [OF ne, of signed_by_nobody "''h.c.s''"]
    by simp
qed

end
